theory Spec2Isabelle
  imports Complex_Main "HOL-Library.Char_ord" "HOL-Library.List_Lexorder"
    "HOL-Library.Product_Lexorder" "HOL-Library.Log_Nat"
begin

section \<open>The Ports table\<close>

text \<open>
  One row of the table \<^verbatim>\<open>Ports\<close> that \<^verbatim>\<open>csv_to_sqlite.py\<close> loads and that every query of
  \<^verbatim>\<open>trade_api.py\<close> reads. The trade volumes are numeric columns: each holds the
  rational number it denotes, and SQLite's \<^verbatim>\<open>SUM\<close> over them is the exact sum. The
  arithmetic that Python and numpy do on the results is floating-point arithmetic and
  rounds (section \<open>binary64\<close>). (The loader also writes the row number of the CSV file
  as a column \<^verbatim>\<open>index\<close>, which no query reads.)
\<close>

record PortRecord =
  year :: int
  month :: int
  country :: string
  ISO3 :: string
  portcalls :: int
  "import" :: rat
  export :: rat

section \<open>binary64\<close>

text \<open>
  A Python \<^verbatim>\<open>float\<close> and a numpy \<^verbatim>\<open>float64\<close> are IEEE 754 binary64 numbers. A finite
  one is the rational it denotes; every arithmetic operation returns the exact result
  rounded to the nearest number with a significand of 53 bits, a tie going to the even
  significand. The range of the exponent is not bounded here: results beyond about
  1.8e308 in magnitude (overflow to infinity) or below about 2.2e-308 (loss of
  precision) are outside this development.
\<close>

text \<open>Rounding to the nearest integer, a tie going to the even neighbour.\<close>

definition round_half_even :: "rat \<Rightarrow> int" where
  "round_half_even x =
     (let f = \<lfloor>x\<rfloor>; d = x - of_int f
      in if d < 1 / 2 then f else if 1 / 2 < d then f + 1
         else if even f then f else f + 1)"

text \<open>
  For \<open>x > 0\<close>, the exponent \<open>e\<close> with \<open>2\<^sup>e \<le> x < 2\<^sup>e\<^sup>+\<^sup>1\<close>, from the bit lengths of numerator
  and denominator.
\<close>

definition exponent :: "rat \<Rightarrow> int" where
  "exponent x =
     (let (p, q) = quotient_of x; d = bitlen p - bitlen q
      in if 2 powi d \<le> x then d else d - 1)"

text \<open>The binary64 number nearest to \<open>x\<close>: \<open>x\<close> rounded to a multiple of \<open>2\<^sup>e\<^sup>-\<^sup>5\<^sup>2\<close>.\<close>

definition binary64 :: "rat \<Rightarrow> rat" where
  "binary64 x =
     (if x = 0 then 0
      else let q = 2 powi (exponent \<bar>x\<bar> - 52)
           in of_int (round_half_even (x / q)) * q)"

section \<open>Python values and exceptions\<close>

text \<open>
  What \<^verbatim>\<open>sqlite3\<close> hands to Python: \<^verbatim>\<open>NULL\<close> is \<^verbatim>\<open>None\<close>, an \<^verbatim>\<open>INTEGER\<close> is an
  \<^verbatim>\<open>int\<close>, a \<^verbatim>\<open>REAL\<close> is a \<^verbatim>\<open>float\<close> and a \<^verbatim>\<open>TEXT\<close> is a \<^verbatim>\<open>str\<close>.
\<close>

datatype sqlval = Null | Integer int | Real rat | Text string

text \<open>The built-in exceptions that the arithmetic and the indexing of the source raise.\<close>

datatype pyerror = TypeError | ZeroDivisionError | IndexError | ValueError

definition bind_err :: "pyerror + 'a \<Rightarrow> ('a \<Rightarrow> pyerror + 'b) \<Rightarrow> pyerror + 'b" where
  "bind_err m f = (case m of Inl e \<Rightarrow> Inl e | Inr x \<Rightarrow> f x)"

text \<open>\<^verbatim>\<open>xs[i]\<close> for a literal index \<^verbatim>\<open>i \<ge> 0\<close>.\<close>

definition getitem :: "'a list \<Rightarrow> nat \<Rightarrow> pyerror + 'a" where
  "getitem xs i = (if i < length xs then Inr (xs ! i) else Inl IndexError)"

text \<open>\<^verbatim>\<open>[f(item) for item in xs]\<close>: the first exception ends the comprehension.\<close>

fun comprehension :: "('a \<Rightarrow> pyerror + 'b) \<Rightarrow> 'a list \<Rightarrow> pyerror + 'b list" where
  "comprehension f [] = Inr []"
| "comprehension f (x # xs) =
     bind_err (f x) (\<lambda>y. bind_err (comprehension f xs) (\<lambda>ys. Inr (y # ys)))"

text \<open>
  \<^verbatim>\<open>a + b\<close> on two values read from the database; an \<^verbatim>\<open>int\<close> that meets a \<^verbatim>\<open>float\<close> is
  converted first.
\<close>

fun py_add :: "sqlval \<Rightarrow> sqlval \<Rightarrow> pyerror + sqlval" where
  "py_add (Integer a) (Integer b) = Inr (Integer (a + b))"
| "py_add (Integer a) (Real b) = Inr (Real (binary64 (binary64 (of_int a) + b)))"
| "py_add (Real a) (Integer b) = Inr (Real (binary64 (a + binary64 (of_int b))))"
| "py_add (Real a) (Real b) = Inr (Real (binary64 (a + b)))"
| "py_add (Text a) (Text b) = Inr (Text (a @ b))"
| "py_add _ _ = Inl TypeError"

text \<open>The number an \<^verbatim>\<open>int\<close> or a \<^verbatim>\<open>float\<close> denotes; \<^verbatim>\<open>None\<close> and \<^verbatim>\<open>str\<close> denote none.\<close>

fun py_number :: "sqlval \<Rightarrow> rat option" where
  "py_number (Integer a) = Some (of_int a)"
| "py_number (Real a) = Some a"
| "py_number _ = None"

text \<open>
  \<^verbatim>\<open>a / b\<close>: true division of Python numbers gives a \<^verbatim>\<open>float\<close> and raises
  \<^verbatim>\<open>ZeroDivisionError\<close> on a zero divisor, for \<^verbatim>\<open>int\<close> and \<^verbatim>\<open>float\<close> alike.
\<close>

definition py_truediv :: "sqlval \<Rightarrow> sqlval \<Rightarrow> pyerror + rat" where
  "py_truediv a b =
     (case (py_number a, py_number b) of
        (Some x, Some y) \<Rightarrow>
          if y = 0 then Inl ZeroDivisionError else Inr (binary64 (x / y))
      | _ \<Rightarrow> Inl TypeError)"

text \<open>
  \<^verbatim>\<open>round(x, 1)\<close> on a finite Python \<^verbatim>\<open>float\<close>: the float nearest to \<open>x\<close> rounded to one
  decimal.
\<close>

definition round1 :: "rat \<Rightarrow> rat" where
  "round1 x = binary64 (of_int (round_half_even (x * 10)) / 10)"

section \<open>SQLite\<close>

text \<open>
  \<^verbatim>\<open>SUM\<close> over the selected rows is \<^verbatim>\<open>NULL\<close> when no row is selected, and the sum of the
  values otherwise (no column of \<^typ>\<open>PortRecord\<close> holds \<^verbatim>\<open>NULL\<close>).
\<close>

definition sql_sum :: "'a::monoid_add list \<Rightarrow> 'a option" where
  "sql_sum xs = (if xs = [] then None else Some (sum_list xs))"

text \<open>
  \<^verbatim>\<open>SELECT DISTINCT\<close> without an index: SQLite scans the table in row order and emits a
  value unless it has been seen before.
\<close>

fun distinct_scan :: "'a list \<Rightarrow> 'a list \<Rightarrow> 'a list" where
  "distinct_scan seen [] = []"
| "distinct_scan seen (x # xs) =
     (if x \<in> set seen then distinct_scan seen xs else x # distinct_scan (x # seen) xs)"

definition sql_distinct :: "'a list \<Rightarrow> 'a list" where
  "sql_distinct xs = distinct_scan [] xs"

text \<open>
  \<^verbatim>\<open>GROUP BY\<close>: SQLite sorts the selected rows on the grouping key and emits one row per
  key, in ascending order. SQL itself leaves the order of the groups open; the theorems
  about grouped results below do not depend on it.
\<close>

definition group_keys :: "'k::linorder list \<Rightarrow> 'k list" where
  "group_keys ks = sort (remdups ks)"

text \<open>
  The queries of \<^verbatim>\<open>trade_api.py\<close>, each as the result set it yields on a table. A sum of
  trade volumes is shown as a \<open>Real\<close>; were the column an \<^verbatim>\<open>INTEGER\<close> one, Python would
  receive an \<^verbatim>\<open>int\<close> of the same value, which it adds without rounding.
\<close>

definition select_distinct_year :: "PortRecord list \<Rightarrow> sqlval list list" where
  \<comment> \<open>\<^verbatim>\<open>SELECT DISTINCT year FROM Ports\<close>\<close>
  "select_distinct_year tbl = map (\<lambda>y. [Integer y]) (sql_distinct (map year tbl))"

definition select_distinct_country :: "PortRecord list \<Rightarrow> sqlval list list" where
  \<comment> \<open>\<^verbatim>\<open>SELECT DISTINCT country FROM Ports\<close>\<close>
  "select_distinct_country tbl = map (\<lambda>c. [Text c]) (sql_distinct (map country tbl))"

definition select_sum_portcalls :: "int \<Rightarrow> PortRecord list \<Rightarrow> sqlval list list" where
  \<comment> \<open>\<^verbatim>\<open>SELECT SUM(portcalls) FROM Ports WHERE year = ?\<close>\<close>
  "select_sum_portcalls y tbl =
     [[case sql_sum (map portcalls (filter (\<lambda>r. year r = y) tbl)) of
         None \<Rightarrow> Null | Some s \<Rightarrow> Integer s]]"

definition select_sum_import_export :: "int \<Rightarrow> PortRecord list \<Rightarrow> sqlval list list" where
  \<comment> \<open>\<^verbatim>\<open>SELECT SUM(import), SUM(export) FROM Ports WHERE year = ?\<close>\<close>
  "select_sum_import_export y tbl =
     (let rows = filter (\<lambda>r. year r = y) tbl
      in [[case sql_sum (map import rows) of None \<Rightarrow> Null | Some s \<Rightarrow> Real s,
           case sql_sum (map export rows) of None \<Rightarrow> Null | Some s \<Rightarrow> Real s]])"

definition select_world :: "int \<Rightarrow> PortRecord list \<Rightarrow> (string \<times> rat \<times> rat) list" where
  \<comment> \<open>\<^verbatim>\<open>SELECT ISO3, SUM(import) AS Imports, SUM(export) AS Exports FROM Ports
      WHERE year = ? GROUP BY ISO3\<close>\<close>
  "select_world y tbl =
     (let rows = filter (\<lambda>r. year r = y) tbl
      in map (\<lambda>k. (k, sum_list (map import (filter (\<lambda>r. ISO3 r = k) rows)),
                       sum_list (map export (filter (\<lambda>r. ISO3 r = k) rows))))
           (group_keys (map ISO3 rows)))"


section \<open>The class TradeAPI: connection and cursor\<close>

text \<open>
  \<open>con\<close> is the database behind the connection, \<open>cursor\<close> the rows that the last
  \<^verbatim>\<open>execute\<close> left to fetch; \<open>years\<close> and \<open>countries\<close> are the lists cached by the
  constructor.
\<close>

record TradeAPI =
  con :: "PortRecord list"
  cursor :: "sqlval list list"
  years :: "sqlval list"
  countries :: "sqlval list"

definition execute :: "TradeAPI \<Rightarrow> (PortRecord list \<Rightarrow> sqlval list list) \<Rightarrow> TradeAPI" where
  "execute self query = self\<lparr>cursor := query (con self)\<rparr>"

definition fetchall :: "TradeAPI \<Rightarrow> sqlval list list \<times> TradeAPI" where
  "fetchall self = (cursor self, self\<lparr>cursor := []\<rparr>)"

definition load_years :: "TradeAPI \<Rightarrow> (pyerror + sqlval list) \<times> TradeAPI" where
  "load_years self =
     (let self1 = execute self select_distinct_year;
          (rows, self2) = fetchall self1
      in (comprehension (\<lambda>item. getitem item 0) rows, self2))"

definition load_countries :: "TradeAPI \<Rightarrow> (pyerror + sqlval list) \<times> TradeAPI" where
  "load_countries self =
     (let self1 = execute self select_distinct_country;
          (rows, self2) = fetchall self1
      in (comprehension (\<lambda>item. getitem item 0) rows, self2))"

definition total_ships :: "TradeAPI \<Rightarrow> int \<Rightarrow> (pyerror + sqlval) \<times> TradeAPI" where
  "total_ships self y =
     (let self1 = execute self (select_sum_portcalls y);
          (rows, self2) = fetchall self1
      in (bind_err (getitem rows 0) (\<lambda>row. getitem row 0), self2))"

text \<open>
  \<^verbatim>\<open>imports, exports = rows[0]\<close> unpacks a tuple of exactly two values and raises
  \<^verbatim>\<open>ValueError\<close> on any other length.
\<close>

definition unpack2 :: "'a list \<Rightarrow> pyerror + 'a \<times> 'a" where
  "unpack2 xs = (case xs of [a, b] \<Rightarrow> Inr (a, b) | _ \<Rightarrow> Inl ValueError)"

definition ie_dist :: "TradeAPI \<Rightarrow> int \<Rightarrow> (pyerror + rat \<times> rat) \<times> TradeAPI" where
  "ie_dist self y =
     (let self1 = execute self (select_sum_import_export y);
          (rows, self2) = fetchall self1
      in (bind_err (getitem rows 0) (\<lambda>row.
          bind_err (unpack2 row) (\<lambda>(imports, exports).
          bind_err (py_add imports exports) (\<lambda>total.
          bind_err (py_truediv imports total) (\<lambda>q1.
          bind_err (py_truediv exports total) (\<lambda>q2.
          Inr (round1 (binary64 (q1 * 100)), round1 (binary64 (q2 * 100)))))))), self2))"

text \<open>
  The constructor: connect, open a cursor and cache both lists. (An attribute not yet
  assigned is shown as the empty list; nothing reads it before its assignment.)
\<close>

definition TradeAPI_init :: "PortRecord list \<Rightarrow> pyerror + TradeAPI" where
  "TradeAPI_init db =
     (let self0 = \<lparr>con = db, cursor = [], years = [], countries = []\<rparr>;
          (ys, self1) = load_years self0
      in bind_err ys (\<lambda>ys.
           let (cs, self2) = load_countries (self1\<lparr>years := ys\<rparr>)
           in bind_err cs (\<lambda>cs. Inr (self2\<lparr>countries := cs\<rparr>))))"

section \<open>numpy floats\<close>

text \<open>
  A \<^verbatim>\<open>float64\<close>: a finite value, \<^verbatim>\<open>nan\<close>, or an infinity. The operations on two finite
  values round their exact result with \<open>binary64\<close>. Division by zero in numpy raises
  nothing: it yields \<^verbatim>\<open>nan\<close> for \<^verbatim>\<open>0/0\<close> and an infinity otherwise. (Zero carries no sign
  here.)
\<close>

datatype float64 = Fin rat | NaN | PosInf | NegInf

definition signed_inf :: "rat \<Rightarrow> float64" where
  "signed_inf s = (if 0 < s then PosInf else if s < 0 then NegInf else NaN)"

fun f_sign :: "float64 \<Rightarrow> rat" where
  "f_sign (Fin a) = sgn a"
| "f_sign PosInf = 1"
| "f_sign NegInf = - 1"
| "f_sign NaN = 0"

fun f_add :: "float64 \<Rightarrow> float64 \<Rightarrow> float64" where
  "f_add NaN _ = NaN"
| "f_add _ NaN = NaN"
| "f_add (Fin a) (Fin b) = Fin (binary64 (a + b))"
| "f_add PosInf NegInf = NaN"
| "f_add NegInf PosInf = NaN"
| "f_add PosInf _ = PosInf"
| "f_add _ PosInf = PosInf"
| "f_add NegInf _ = NegInf"
| "f_add _ NegInf = NegInf"

fun f_mul :: "float64 \<Rightarrow> float64 \<Rightarrow> float64" where
  "f_mul NaN _ = NaN"
| "f_mul _ NaN = NaN"
| "f_mul (Fin a) (Fin b) = Fin (binary64 (a * b))"
| "f_mul x y = signed_inf (f_sign x * f_sign y)"

fun f_div :: "float64 \<Rightarrow> float64 \<Rightarrow> float64" where
  "f_div NaN _ = NaN"
| "f_div _ NaN = NaN"
| "f_div (Fin a) (Fin b) = (if b = 0 then signed_inf a else Fin (binary64 (a / b)))"
| "f_div (Fin a) _ = Fin 0"
| "f_div x (Fin b) = (if b < 0 then signed_inf (- f_sign x) else x)"
| "f_div _ _ = NaN"

fun f_less :: "float64 \<Rightarrow> float64 \<Rightarrow> bool" where
  "f_less (Fin a) (Fin b) = (a < b)"
| "f_less NegInf (Fin b) = True"
| "f_less NegInf PosInf = True"
| "f_less (Fin a) PosInf = True"
| "f_less _ _ = False"

definition f_max :: "float64 \<Rightarrow> float64 \<Rightarrow> float64" where
  "f_max a b = (if f_less a b then b else a)"

text \<open>
  \<^verbatim>\<open>round(x, 1)\<close> on a numpy scalar: numpy multiplies by ten, rounds to the nearest
  integer and divides by ten, each step in floating point.
\<close>

fun f_round1 :: "float64 \<Rightarrow> float64" where
  "f_round1 (Fin a) =
     Fin (binary64 (of_int (round_half_even (binary64 (a * 10))) / 10))"
| "f_round1 x = x"

text \<open>\<^verbatim>\<open>round(x, 1)\<close> on a Python \<^verbatim>\<open>float\<close>.\<close>

fun py_round1 :: "float64 \<Rightarrow> float64" where
  "py_round1 (Fin a) = Fin (round1 a)"
| "py_round1 x = x"

section \<open>pandas\<close>

text \<open>
  A numeric column: \<open>Float64\<close> holds its values; \<open>ObjectEmpty\<close> is the column of a
  frame read from an empty result set, which has no values and the untyped dtype
  \<^verbatim>\<open>object\<close>.
\<close>

datatype series = ObjectEmpty | Float64 "float64 list"

text \<open>
  What a reduction of a column returns: a numpy scalar for a typed column with values,
  the Python float \<^verbatim>\<open>nan\<close> for the maximum of no values, the Python int \<^verbatim>\<open>0\<close> for the
  sum of an untyped empty column.
\<close>

datatype scalar = PyInt int | PyFloat float64 | NpFloat float64

text \<open>\<^verbatim>\<open>Series.max()\<close> and \<^verbatim>\<open>Series.sum()\<close>; both skip \<^verbatim>\<open>nan\<close>.\<close>

definition series_max :: "series \<Rightarrow> scalar" where
  "series_max s =
     (case s of
        ObjectEmpty \<Rightarrow> PyFloat NaN
      | Float64 xs \<Rightarrow>
          (if xs = [] then PyFloat NaN
           else case filter (\<lambda>x. x \<noteq> NaN) xs of
                  [] \<Rightarrow> NpFloat NaN
                | y # ys \<Rightarrow> NpFloat (fold f_max ys y)))"

definition series_sum :: "series \<Rightarrow> scalar" where
  "series_sum s =
     (case s of
        ObjectEmpty \<Rightarrow> PyInt 0
      | Float64 xs \<Rightarrow> NpFloat (foldl f_add (Fin 0) (filter (\<lambda>x. x \<noteq> NaN) xs)))"

fun scalar_value :: "scalar \<Rightarrow> float64" where
  "scalar_value (PyInt i) = Fin (binary64 (of_int i))"
| "scalar_value (PyFloat v) = v"
| "scalar_value (NpFloat v) = v"

fun is_numpy :: "scalar \<Rightarrow> bool" where
  "is_numpy (NpFloat v) = True"
| "is_numpy _ = False"

text \<open>
  \<^verbatim>\<open>a / b\<close> on scalars: numpy's division as soon as one operand is a numpy scalar,
  Python's otherwise, which raises on a zero divisor.
\<close>

definition scalar_truediv :: "scalar \<Rightarrow> scalar \<Rightarrow> pyerror + scalar" where
  "scalar_truediv a b =
     (if is_numpy a \<or> is_numpy b then Inr (NpFloat (f_div (scalar_value a) (scalar_value b)))
      else if scalar_value b = Fin 0 then Inl ZeroDivisionError
      else Inr (PyFloat (f_div (scalar_value a) (scalar_value b))))"

definition scalar_mul :: "scalar \<Rightarrow> scalar \<Rightarrow> scalar" where
  "scalar_mul a b =
     (if is_numpy a \<or> is_numpy b then NpFloat (f_mul (scalar_value a) (scalar_value b))
      else case (a, b) of
             (PyInt i, PyInt j) \<Rightarrow> PyInt (i * j)
           | _ \<Rightarrow> PyFloat (f_mul (scalar_value a) (scalar_value b)))"

text \<open>\<^verbatim>\<open>round(x, 1)\<close>.\<close>

fun scalar_round1 :: "scalar \<Rightarrow> scalar" where
  "scalar_round1 (PyInt i) = PyInt i"
| "scalar_round1 (PyFloat v) = PyFloat (py_round1 v)"
| "scalar_round1 (NpFloat v) = NpFloat (f_round1 v)"

text \<open>
  A DataFrame, by rows. \<open>EmptyObject\<close> is the frame that \<^verbatim>\<open>read_sql_query\<close> builds
  from an empty result set: no rows, every column of dtype \<^verbatim>\<open>object\<close>. \<open>Frame rows\<close> is
  a frame whose numeric columns are typed.
\<close>

datatype 'r DataFrame = EmptyObject | Frame "'r list"

fun rows_of :: "'r DataFrame \<Rightarrow> 'r list" where
  "rows_of EmptyObject = []"
| "rows_of (Frame rows) = rows"

text \<open>\<^verbatim>\<open>df[c]\<close> for a numeric column \<open>c\<close>.\<close>

fun column :: "('r \<Rightarrow> float64) \<Rightarrow> 'r DataFrame \<Rightarrow> series" where
  "column c EmptyObject = ObjectEmpty"
| "column c (Frame rows) = Float64 (map c rows)"

text \<open>
  \<^verbatim>\<open>df[c] = e\<close> where \<open>e\<close> is computed from columns of \<open>df\<close> itself, element by element:
  \<open>f\<close> gives the row with the new value in place.
\<close>

fun set_column :: "('r \<Rightarrow> 's) \<Rightarrow> 'r DataFrame \<Rightarrow> 's DataFrame" where
  "set_column f EmptyObject = EmptyObject"
| "set_column f (Frame rows) = Frame (map f rows)"

definition read_sql_query :: "(PortRecord list \<Rightarrow> 't list) \<Rightarrow> ('t \<Rightarrow> 'r) \<Rightarrow> PortRecord list
    \<Rightarrow> 'r DataFrame" where
  "read_sql_query query as_row db =
     (case query db of [] \<Rightarrow> EmptyObject | t # ts \<Rightarrow> Frame (map as_row (t # ts)))"

text \<open>The columns of the frames that the two table queries build.\<close>

record ie_row =
  Imports :: float64
  Exports :: float64

record world_row = ie_row +
  ISO3 :: string

record snapshot_row = world_row +
  Trade :: float64

record country_row = ie_row +
  year :: int
  month :: int




subsection \<open>scale_ie\<close>

text \<open>
  Frames are objects: \<open>heap\<close> lists the frames that exist, an address is an index into
  it. \<^verbatim>\<open>df.copy()\<close> allocates a new frame with the same contents; an assignment to a
  column changes the frame at its address.
\<close>

definition df_copy :: "'r DataFrame list \<Rightarrow> nat \<Rightarrow> nat \<times> 'r DataFrame list" where
  "df_copy heap df = (length heap, heap @ [heap ! df])"

definition df_setitem :: "'r DataFrame list \<Rightarrow> nat \<Rightarrow> ('r \<Rightarrow> 'r) \<Rightarrow> 'r DataFrame list" where
  "df_setitem heap df f = heap[df := set_column f (heap ! df)]"

definition scale_ie :: "('a ie_row_scheme) DataFrame list \<Rightarrow> nat \<Rightarrow> rat
    \<Rightarrow> nat \<times> ('a ie_row_scheme) DataFrame list" where
  "scale_ie heap df scale =
     (let (df1, heap1) = df_copy heap df;
          heap2 = df_setitem heap1 df1 (\<lambda>r. r\<lparr>Imports := f_div (Imports r) (Fin scale)\<rparr>);
          heap3 = df_setitem heap2 df1 (\<lambda>r. r\<lparr>Exports := f_div (Exports r) (Fin scale)\<rparr>)
      in (df1, heap3))"

subsection \<open>top_share\<close>

definition top_share :: "('a snapshot_row_scheme) DataFrame \<Rightarrow> pyerror + scalar" where
  "top_share df =
     (let max_trade = series_max (column Trade df);
          sum_trade = series_sum (column Trade df)
      in bind_err (scalar_truediv max_trade sum_trade) (\<lambda>q.
           Inr (scalar_round1 (scalar_mul q (PyInt 100)))))"

subsection \<open>get_world_data\<close>

definition as_world_row :: "string \<times> rat \<times> rat \<Rightarrow> world_row" where
  "as_world_row t = (case t of (k, i, e) \<Rightarrow> \<lparr>Imports = Fin i, Exports = Fin e, ISO3 = k\<rparr>)"

text \<open>
  The frame read from the database is the one object the call starts from;
  \<^verbatim>\<open>scale_ie\<close> returns a second one, to which the column \<^verbatim>\<open>Trade\<close> is added.
\<close>

definition get_world_data :: "TradeAPI \<Rightarrow> int \<Rightarrow> snapshot_row DataFrame" where
  "get_world_data self y =
     (let df = read_sql_query (select_world y) as_world_row (con self);
          (df1, heap) = scale_ie [df] 0 1000000
      in set_column (\<lambda>r. \<lparr>Imports = Imports r, Exports = Exports r, ISO3 = ISO3 r,
                           Trade = f_add (Imports r) (Exports r)\<rparr>) (heap ! df1))"

subsection \<open>get_country_data\<close>







section \<open>Example databases\<close>

text \<open>The two records of the specification's example.\<close>

definition example_api :: TradeAPI where
  "example_api =
     \<lparr>con = [\<lparr>PortRecord.year = 2025, PortRecord.month = 3, country = ''USA'',
               PortRecord.ISO3 = ''USA'', portcalls = 100, import = 500, export = 300\<rparr>,
             \<lparr>PortRecord.year = 2025, PortRecord.month = 3, country = ''Canada'',
               PortRecord.ISO3 = ''CAN'', portcalls = 50, import = 200, export = 100\<rparr>],
      cursor = [], years = [], countries = []\<rparr>"

text \<open>A later year loaded before an earlier one, the earlier one without any trade.\<close>

definition zero_api :: TradeAPI where
  "zero_api =
     \<lparr>con = [\<lparr>PortRecord.year = 2025, PortRecord.month = 3, country = ''USA'',
               PortRecord.ISO3 = ''USA'', portcalls = 100, import = 500, export = 300\<rparr>,
             \<lparr>PortRecord.year = 2019, PortRecord.month = 1, country = ''Canada'',
               PortRecord.ISO3 = ''CAN'', portcalls = 5, import = 0, export = 0\<rparr>],
      cursor = [], years = [], countries = []\<rparr>"

text \<open>One frame in the heap, of the shape the query of \<^verbatim>\<open>get_world_data\<close> yields.\<close>

definition example_heap :: "world_row DataFrame list" where
  "example_heap =
     [Frame [\<lparr>Imports = Fin 200, Exports = Fin 100, ISO3 = ''CAN''\<rparr>,
             \<lparr>Imports = Fin 500, Exports = Fin 300, ISO3 = ''USA''\<rparr>]]"

section \<open>The rows of the two tables, in closed form\<close>

text \<open>
  The row that \<^verbatim>\<open>get_world_data\<close> makes of one row of its query, and its trade value
  (lemma \<open>get_world_data_eq\<close> below).
\<close>

definition trade_of :: "string \<times> rat \<times> rat \<Rightarrow> rat" where
  "trade_of t = (case t of (k, i, e) \<Rightarrow>
     binary64 (binary64 (i / 1000000) + binary64 (e / 1000000)))"

definition snapshot_of :: "string \<times> rat \<times> rat \<Rightarrow> snapshot_row" where
  "snapshot_of t = (case t of (k, i, e) \<Rightarrow>
     \<lparr>Imports = Fin (binary64 (i / 1000000)), Exports = Fin (binary64 (e / 1000000)),
      ISO3 = k, Trade = Fin (trade_of t)\<rparr>)"


section \<open>Floating-point tolerance\<close>


section \<open>Properties of binary64\<close>

lemma round_half_even_lower: "of_int n \<le> x \<Longrightarrow> n \<le> round_half_even x"
proof -
  assume "of_int n \<le> x"
  then have "n \<le> \<lfloor>x\<rfloor>" by (simp add: le_floor_iff)
  then show ?thesis by (simp add: round_half_even_def Let_def)
qed

lemma round_half_even_upper: "x \<le> of_int n \<Longrightarrow> round_half_even x \<le> n"
proof -
  assume le: "x \<le> of_int n"
  then have fl: "\<lfloor>x\<rfloor> \<le> n" by (simp add: floor_le_iff)
  show ?thesis
  proof (cases "\<lfloor>x\<rfloor> = n")
    case True
    then have "x = of_int \<lfloor>x\<rfloor>" using le of_int_floor_le [of x] by simp
    then have "x - of_int \<lfloor>x\<rfloor> < 1 / 2" by simp
    then show ?thesis using True by (simp add: round_half_even_def Let_def)
  next
    case False
    then have "\<lfloor>x\<rfloor> + 1 \<le> n" using fl by simp
    then show ?thesis using fl by (simp add: round_half_even_def Let_def)
  qed
qed

lemma round_half_even_of_int: "round_half_even (of_int n) = n"
  using round_half_even_lower [of n "of_int n"] round_half_even_upper [of "of_int n" n] by simp

lemma round_half_even_mono: "x \<le> y \<Longrightarrow> round_half_even x \<le> round_half_even y"
proof -
  assume le: "x \<le> y"
  then have fl: "\<lfloor>x\<rfloor> \<le> \<lfloor>y\<rfloor>" by (rule floor_mono)
  show ?thesis
  proof (cases "\<lfloor>x\<rfloor> = \<lfloor>y\<rfloor>")
    case True
    then have "x - of_int \<lfloor>x\<rfloor> \<le> y - of_int \<lfloor>y\<rfloor>" using le by simp
    then show ?thesis using True by (auto simp add: round_half_even_def Let_def)
  next
    case False
    then have "\<lfloor>x\<rfloor> + 1 \<le> \<lfloor>y\<rfloor>" using fl by simp
    moreover have "round_half_even x \<le> \<lfloor>x\<rfloor> + 1" by (simp add: round_half_even_def Let_def)
    moreover have "\<lfloor>y\<rfloor> \<le> round_half_even y" by (simp add: round_half_even_def Let_def)
    ultimately show ?thesis by linarith
  qed
qed


lemma powi_of_nat_power: "0 \<le> b \<Longrightarrow> (2::rat) powi b = 2 ^ nat b"
  by (simp add: power_int_def)

lemma powi_split: "(2::rat) powi a = 2 ^ n * 2 powi (a - int n)"
proof -
  have "(2::rat) powi a = 2 powi (int n + (a - int n))" by simp
  also have "\<dots> = 2 powi int n * 2 powi (a - int n)" by (rule power_int_add) simp
  finally show ?thesis by simp
qed

lemma powi_less_cancel: "(2::rat) powi a < 2 powi b \<Longrightarrow> a < b"
proof (rule ccontr)
  assume "2 powi a < (2::rat) powi b" "\<not> a < b"
  then have "(2::rat) powi b \<le> 2 powi a" by (intro power_int_increasing) simp_all
  with \<open>2 powi a < (2::rat) powi b\<close> show False by simp
qed

lemma bitlen_powi:
  assumes "0 < p"
  shows "2 powi (bitlen p - 1) \<le> (of_int p :: rat) \<and> (of_int p :: rat) < 2 powi bitlen p"
proof -
  from assms have b: "1 \<le> bitlen p" by (auto simp: bitlen_alt_def)
  have "2 ^ nat (bitlen p - 1) \<le> p" "p < 2 ^ nat (bitlen p)"
    using bitlen_bounds [OF assms] by simp_all
  then have "(of_int (2 ^ nat (bitlen p - 1)) :: rat) \<le> of_int p"
     "(of_int p :: rat) < of_int (2 ^ nat (bitlen p))"
    by (simp_all only: of_int_le_iff of_int_less_iff)
  then show ?thesis using b by (simp add: powi_of_nat_power)
qed

lemma exponent_bounds:
  assumes "0 < x"
  shows "2 powi exponent x \<le> x \<and> x < 2 powi (exponent x + 1)"
proof -
  obtain p q where pq: "quotient_of x = (p, q)" by (cases "quotient_of x")
  then have q: "0 < q" and x: "x = of_int p / of_int q"
    using quotient_of_denom_pos [OF pq] quotient_of_div [OF pq] by simp_all
  from assms q x have p: "0 < p" by (simp add: zero_less_divide_iff)
  let ?d = "bitlen p - bitlen q"
  have bp: "2 powi (bitlen p - 1) \<le> (of_int p :: rat)" "(of_int p :: rat) < 2 powi bitlen p"
    using bitlen_powi [OF p] by simp_all
  have bq: "2 powi (bitlen q - 1) \<le> (of_int q :: rat)" "(of_int q :: rat) < 2 powi bitlen q"
    using bitlen_powi [OF q] by simp_all
  have qpos: "(0::rat) < of_int q" using q by simp
  have "x * of_int q < 2 powi bitlen p" using x qpos bp(2) by simp
  also have "\<dots> = 2 powi (?d + 1) * 2 powi (bitlen q - 1)"
    by (simp add: power_int_add [symmetric])
  also have "\<dots> \<le> 2 powi (?d + 1) * of_int q"
    using bq(1) by (intro mult_left_mono) simp_all
  finally have up: "x < 2 powi (?d + 1)" using qpos by simp
  have "2 powi (?d - 1) * (of_int q :: rat) \<le> 2 powi (?d - 1) * 2 powi bitlen q"
    using bq(2) by (intro mult_left_mono) simp_all
  also have "\<dots> = 2 powi (bitlen p - 1)" by (simp add: power_int_add [symmetric])
  also have "\<dots> \<le> x * of_int q" using x qpos bp(1) by simp
  finally have lo: "2 powi (?d - 1) \<le> x" using qpos by simp
  show ?thesis
  proof (cases "2 powi ?d \<le> x")
    case True
    then show ?thesis using up by (simp add: exponent_def pq)
  next
    case False
    then show ?thesis using lo by (simp add: exponent_def pq)
  qed
qed

lemma exponent_unique:
  assumes "2 powi e \<le> x" and "x < 2 powi (e + 1)"
  shows "exponent x = e"
proof -
  have "(0::rat) < 2 powi e" by simp
  with assms(1) have pos: "0 < x" by linarith
  from exponent_bounds [OF pos]
  have b: "2 powi exponent x \<le> x" "x < 2 powi (exponent x + 1)" by simp_all
  have "(2::rat) powi e < 2 powi (exponent x + 1)" using assms(1) b(2) by linarith
  then have "e < exponent x + 1" by (rule powi_less_cancel)
  moreover have "(2::rat) powi exponent x < 2 powi (e + 1)" using assms(2) b(1) by linarith
  then have "exponent x < e + 1" by (rule powi_less_cancel)
  ultimately show ?thesis by simp
qed

lemma exponent_mono: "0 < x \<Longrightarrow> x \<le> y \<Longrightarrow> exponent x \<le> exponent y"
proof -
  assume x: "0 < x" and le: "x \<le> y"
  then have y: "0 < y" by simp
  have "(2::rat) powi exponent x < 2 powi (exponent y + 1)"
    using exponent_bounds [OF x] exponent_bounds [OF y] le by linarith
  then have "exponent x < exponent y + 1" by (rule powi_less_cancel)
  then show ?thesis by simp
qed

lemma significand_bounds:
  assumes "0 < x"
  shows "2 ^ 52 \<le> round_half_even (x / 2 powi (exponent x - 52))"
    and "round_half_even (x / 2 powi (exponent x - 52)) \<le> 2 ^ 53"
proof -
  let ?q = "(2::rat) powi (exponent x - 52)"
  have q: "0 < ?q" by simp
  have e: "2 powi exponent x = 2 ^ 52 * ?q" "2 powi (exponent x + 1) = 2 ^ 53 * ?q"
    by (simp_all add: power_int_diff power_int_add)
  from exponent_bounds [OF assms] have "2 ^ 52 * ?q \<le> x" "x < 2 ^ 53 * ?q"
    unfolding e by simp_all
  then have b: "of_int (2 ^ 52) \<le> x / ?q" "x / ?q \<le> of_int (2 ^ 53)"
    using q by (simp_all add: pos_le_divide_eq pos_divide_le_eq)
  show "2 ^ 52 \<le> round_half_even (x / ?q)"
    by (rule round_half_even_lower) (rule b(1))
  show "round_half_even (x / ?q) \<le> 2 ^ 53"
    by (rule round_half_even_upper) (rule b(2))
qed

lemma binary64_pos_eq:
  "0 < x \<Longrightarrow> binary64 x = of_int (round_half_even (x / 2 powi (exponent x - 52)))
      * 2 powi (exponent x - 52)"
  by (simp add: binary64_def Let_def)

lemma binary64_zero [simp]: "binary64 0 = 0"
  by (simp add: binary64_def)

lemma binary64_bounds:
  assumes "0 < x"
  shows "2 powi exponent x \<le> binary64 x" and "binary64 x \<le> 2 powi (exponent x + 1)"
proof -
  let ?q = "(2::rat) powi (exponent x - 52)"
  let ?m = "round_half_even (x / ?q)"
  have q: "0 < ?q" by simp
  have e: "2 powi exponent x = 2 ^ 52 * ?q" "2 powi (exponent x + 1) = 2 ^ 53 * ?q"
    by (simp_all add: power_int_diff power_int_add)
  have "(of_int (2 ^ 52) :: rat) \<le> of_int ?m" "(of_int ?m :: rat) \<le> of_int (2 ^ 53)"
    using significand_bounds [OF assms] by (simp_all only: of_int_le_iff)
  then have "2 ^ 52 * ?q \<le> of_int ?m * ?q" "of_int ?m * ?q \<le> 2 ^ 53 * ?q"
    using q by simp_all
  then show "2 powi exponent x \<le> binary64 x" "binary64 x \<le> 2 powi (exponent x + 1)"
    unfolding e binary64_pos_eq [OF assms] by simp_all
qed

lemma binary64_pos: "0 < x \<Longrightarrow> 0 < binary64 x"
proof -
  assume "0 < x"
  from binary64_bounds(1) [OF this] have "2 powi exponent x \<le> binary64 x" .
  moreover have "(0::rat) < 2 powi exponent x" by simp
  ultimately show ?thesis by linarith
qed

lemma binary64_nonneg: "0 \<le> x \<Longrightarrow> 0 \<le> binary64 x"
  using binary64_pos [of x] by (cases "x = 0") (simp_all add: less_le)

lemma binary64_mono:
  assumes "0 \<le> x" and "x \<le> y"
  shows "binary64 x \<le> binary64 y"
proof (cases "x = 0")
  case True
  then show ?thesis using assms binary64_nonneg [of y] by simp
next
  case False
  with assms have x: "0 < x" and y: "0 < y" by simp_all
  show ?thesis
  proof (cases "exponent x = exponent y")
    case True
    let ?q = "(2::rat) powi (exponent y - 52)"
    have q: "0 < ?q" by simp
    have "x / ?q \<le> y / ?q" using assms(2) q by (simp add: divide_right_mono)
    then have "round_half_even (x / ?q) \<le> round_half_even (y / ?q)"
      by (rule round_half_even_mono)
    then have "(of_int (round_half_even (x / ?q)) :: rat) \<le> of_int (round_half_even (y / ?q))"
      by (simp only: of_int_le_iff)
    then have "of_int (round_half_even (x / ?q)) * ?q \<le> of_int (round_half_even (y / ?q)) * ?q"
      using q by simp
    then show ?thesis unfolding binary64_pos_eq [OF x] binary64_pos_eq [OF y] True .
  next
    case False
    with exponent_mono [OF x assms(2)] have "exponent x + 1 \<le> exponent y" by simp
    then have "(2::rat) powi (exponent x + 1) \<le> 2 powi exponent y"
      by (intro power_int_increasing) simp_all
    with binary64_bounds(2) [OF x] binary64_bounds(1) [OF y] show ?thesis by linarith
  qed
qed

lemma binary64_idem: "0 \<le> x \<Longrightarrow> binary64 (binary64 x) = binary64 x"
proof (cases "x = 0")
  case True
  then show ?thesis by simp
next
  case False
  assume "0 \<le> x"
  with False have x: "0 < x" by simp
  let ?e = "exponent x"
  let ?q = "(2::rat) powi (?e - 52)"
  let ?m = "round_half_even (x / ?q)"
  have q: "0 < ?q" by simp
  have y: "binary64 x = of_int ?m * ?q" by (rule binary64_pos_eq [OF x])
  have ypos: "0 < binary64 x" by (rule binary64_pos [OF x])
  have e: "2 powi ?e = 2 ^ 52 * ?q" "2 powi (?e + 1) = 2 ^ 53 * ?q"
    by (simp_all add: power_int_diff power_int_add)
  show ?thesis
  proof (cases "?m = 2 ^ 53")
    case True
    then have y2: "binary64 x = 2 powi (?e + 1)" unfolding y e by simp
    define q' where "q' = (2::rat) powi (?e + 1 - 52)"
    have q': "0 < q'" by (simp add: q'_def)
    have s: "(2::rat) powi (?e + 1) = of_int (2 ^ 52) * q'"
      using powi_split [of "?e + 1" 52] by (simp add: q'_def)
    have ex: "exponent (2 powi (?e + 1)) = ?e + 1"
      by (rule exponent_unique) (simp_all add: power_int_add)
    have "binary64 (2 powi (?e + 1)) = of_int (round_half_even (2 powi (?e + 1) / q')) * q'"
      using binary64_pos_eq [of "2 powi (?e + 1)"] by (simp add: ex q'_def)
    also have "2 powi (?e + 1) / q' = of_int (2 ^ 52)" using q' by (simp add: s)
    also have "of_int (round_half_even (of_int (2 ^ 52))) * q' = 2 powi (?e + 1)"
      unfolding round_half_even_of_int s ..
    finally show ?thesis unfolding y2 .
  next
    case False
    with significand_bounds [OF x] have m: "2 ^ 52 \<le> ?m" "?m < 2 ^ 53" by simp_all
    then have "(of_int (2 ^ 52) :: rat) \<le> of_int ?m" "(of_int ?m :: rat) < of_int (2 ^ 53)"
      by (simp_all only: of_int_le_iff of_int_less_iff)
    then have "2 ^ 52 * ?q \<le> of_int ?m * ?q" "of_int ?m * ?q < 2 ^ 53 * ?q"
      using q by simp_all
    then have "exponent (binary64 x) = ?e"
      unfolding y by (intro exponent_unique) (simp_all add: e)
    moreover have "of_int ?m * ?q / ?q = (of_int ?m :: rat)" by simp
    ultimately have "binary64 (binary64 x) = of_int (round_half_even (of_int ?m)) * ?q"
      unfolding binary64_pos_eq [OF ypos] unfolding y by simp
    then show ?thesis unfolding round_half_even_of_int y .
  qed
qed





lemma binary64_1 [simp]: "binary64 1 = 1" by code_simp
lemma binary64_100 [simp]: "binary64 100 = 100" by code_simp
lemma binary64_1000 [simp]: "binary64 1000 = 1000" by code_simp

section \<open>The round trip of a division\<close>




section \<open>ie_dist and total_ships\<close>

lemma fst_ie_dist:
  "fst (ie_dist self y) =
     (let rows = filter (\<lambda>r. PortRecord.year r = y) (con self);
          si = sum_list (map import rows); se = sum_list (map export rows);
          total = binary64 (si + se) in
      if rows = [] then Inl TypeError
      else if total = 0 then Inl ZeroDivisionError
      else Inr (round1 (binary64 (binary64 (si / total) * 100)),
                round1 (binary64 (binary64 (se / total) * 100))))"
  by (simp add: ie_dist_def execute_def fetchall_def select_sum_import_export_def Let_def
      getitem_def bind_err_def unpack2_def sql_sum_def py_truediv_def)

lemma fst_total_ships:
  "fst (total_ships self y) =
     Inr (if filter (\<lambda>r. PortRecord.year r = y) (con self) = [] then Null
          else Integer (sum_list (map portcalls
                 (filter (\<lambda>r. PortRecord.year r = y) (con self)))))"
  by (simp add: total_ships_def execute_def fetchall_def select_sum_portcalls_def
      getitem_def bind_err_def sql_sum_def)

text \<open>
  C10. When no record has the year, both sums of the query are \<^verbatim>\<open>NULL\<close>, the addition
  \<^verbatim>\<open>None + None\<close> raises \<^verbatim>\<open>TypeError\<close>, and that is what \<^verbatim>\<open>ie_dist\<close> raises: it returns
  neither a pair of percentages nor \<^verbatim>\<open>None\<close>, and no division is reached.
\<close>

theorem ie_dist_no_records:
  "filter (\<lambda>r. PortRecord.year r = y) (con self) = [] \<Longrightarrow>
     select_sum_import_export y (con self) = [[Null, Null]] \<and>
     py_add Null Null = Inl TypeError \<and>
     fst (ie_dist self y) = Inl TypeError"
  by (simp add: fst_ie_dist select_sum_import_export_def sql_sum_def)

theorem ie_dist_no_records_witness:
  "filter (\<lambda>r. PortRecord.year r = 1999) (con zero_api) = [] \<and>
   fst (ie_dist zero_api 1999) = Inl TypeError"
  using ie_dist_no_records [of 1999 zero_api] by (simp add: zero_api_def)

text \<open>
  C1, as stated, fails: on a year whose records carry no trade at all, \<^verbatim>\<open>ie_dist\<close> raises
  Python's own \<^verbatim>\<open>ZeroDivisionError\<close>, the arithmetic fault of the platform.
\<close>

theorem ie_dist_zero_total_counterexample:
  "fst (ie_dist zero_api 2019) = Inl ZeroDivisionError"
  by (simp add: fst_ie_dist zero_api_def)

text \<open>
  C1, amended. For every year that has at least one record and whose combined total of
  imports and exports is zero, \<^verbatim>\<open>ie_dist\<close> raises \<^verbatim>\<open>ZeroDivisionError\<close>.
\<close>

theorem ie_dist_zero_total:
  "filter (\<lambda>r. PortRecord.year r = y) (con self) \<noteq> [] \<Longrightarrow>
   sum_list (map import (filter (\<lambda>r. PortRecord.year r = y) (con self)))
     + sum_list (map export (filter (\<lambda>r. PortRecord.year r = y) (con self))) = 0 \<Longrightarrow>
   fst (ie_dist self y) = Inl ZeroDivisionError"
  by (simp add: fst_ie_dist)

theorem ie_dist_zero_total_witness:
  "filter (\<lambda>r. PortRecord.year r = 2019) (con zero_api) \<noteq> [] \<and>
   fst (ie_dist zero_api 2019) = Inl ZeroDivisionError"
  using ie_dist_zero_total [of 2019 zero_api] by (simp add: zero_api_def)

text \<open>
  C4. \<^verbatim>\<open>total_ships\<close> returns \<^verbatim>\<open>None\<close> when no record has the year and the sum of the
  port calls of the records of that year otherwise; with port calls that are not
  negative, that sum is not negative either.
\<close>

theorem total_ships_sum:
  assumes "\<forall>r \<in> set (con self). 0 \<le> portcalls r"
  shows "fst (total_ships self y) =
     Inr (if filter (\<lambda>r. PortRecord.year r = y) (con self) = [] then Null
          else Integer (sum_list (map portcalls
                 (filter (\<lambda>r. PortRecord.year r = y) (con self)))))
     \<and> 0 \<le> sum_list (map portcalls (filter (\<lambda>r. PortRecord.year r = y) (con self)))"
proof -
  have "0 \<le> sum_list (map portcalls (filter (\<lambda>r. PortRecord.year r = y) (con self)))"
    using assms by (intro sum_list_nonneg) auto
  then show ?thesis by (simp add: fst_total_ships)
qed

theorem total_ships_sum_witness:
  "list_all (\<lambda>r. 0 \<le> portcalls r) (con zero_api) \<and>
   fst (total_ships zero_api 2025) = Inr (Integer 100) \<and>
   fst (total_ships zero_api 1999) = Inr Null"
  using total_ships_sum [of zero_api 2025] total_ships_sum [of zero_api 1999]
  by (simp add: zero_api_def)

section \<open>load_years\<close>

lemma set_distinct_scan: "set (distinct_scan seen xs) = set xs - set seen"
  by (induction xs arbitrary: seen) auto

lemma distinct_distinct_scan: "distinct (distinct_scan seen xs)"
  by (induction xs arbitrary: seen) (auto simp: set_distinct_scan)

lemma remdups_snoc: "remdups (ys @ [x]) = remdups (filter (\<lambda>y. y \<noteq> x) ys) @ [x]"
  by (induction ys) auto

lemma distinct_scan_first:
  "distinct_scan seen xs = rev (remdups (rev (filter (\<lambda>x. x \<notin> set seen) xs)))"
proof (induction xs arbitrary: seen)
  case Nil
  then show ?case by simp
next
  case (Cons x xs)
  show ?case
  proof (cases "x \<in> set seen")
    case True
    then show ?thesis using Cons.IH [of seen] by simp
  next
    case False
    have "filter (\<lambda>y. y \<notin> set [x]) (rev (filter (\<lambda>y. y \<notin> set seen) xs))
            = rev (filter (\<lambda>y. y \<notin> set (x # seen)) xs)"
      by (simp add: rev_filter [symmetric] conj_commute)
    then show ?thesis using False Cons.IH [of "x # seen"]
      by (simp add: remdups_snoc)
  qed
qed

lemma comprehension_item0:
  "comprehension (\<lambda>item. getitem item 0) (map (\<lambda>y. [f y]) ys) = Inr (map f ys)"
  by (induction ys) (simp_all add: getitem_def bind_err_def)

lemma fst_load_years:
  "fst (load_years self) = Inr (map Integer (sql_distinct (map PortRecord.year (con self))))"
  by (simp add: load_years_def execute_def fetchall_def select_distinct_year_def
      comprehension_item0)

lemma snd_load_years: "snd (load_years self) = self\<lparr>cursor := []\<rparr>"
  by (simp add: load_years_def execute_def fetchall_def)

text \<open>
  C6, as stated, fails: the years come in the order in which the table first shows
  them, so a table that holds a record of 2025 before one of 2019 gives a list that is
  not sorted.
\<close>

theorem load_years_unsorted_counterexample:
  "fst (load_years zero_api) = Inr [Integer 2025, Integer 2019] \<and>
   \<not> sorted [2025, 2019 :: int]"
  by (simp add: fst_load_years zero_api_def sql_distinct_def)

text \<open>
  C6, amended. \<^verbatim>\<open>load_years\<close> returns the years of the table, each exactly once, in the
  order of their first record in the table, and leaves the database as it was.
\<close>

theorem load_years_distinct:
  "\<exists>ys. fst (load_years self) = Inr (map Integer ys) \<and> distinct ys \<and>
        set ys = PortRecord.year ` set (con self) \<and>
        ys = rev (remdups (rev (map PortRecord.year (con self)))) \<and>
        con (snd (load_years self)) = con self"
proof -
  let ?ys = "sql_distinct (map PortRecord.year (con self))"
  have "fst (load_years self) = Inr (map Integer ?ys)" by (rule fst_load_years)
  moreover have "distinct ?ys" by (simp add: sql_distinct_def distinct_distinct_scan)
  moreover have "set ?ys = PortRecord.year ` set (con self)"
    by (simp add: sql_distinct_def set_distinct_scan)
  moreover have "?ys = rev (remdups (rev (map PortRecord.year (con self))))"
    by (simp add: sql_distinct_def distinct_scan_first)
  moreover have "con (snd (load_years self)) = con self" by (simp add: snd_load_years)
  ultimately show ?thesis by blast
qed

section \<open>scale_ie\<close>

lemma set_column_comp: "set_column f (set_column g d) = set_column (\<lambda>r. f (g r)) d"
  by (cases d) simp_all



lemma scale_ie_eq:
  "scale_ie heap df k =
     (length heap,
      heap @ [set_column (\<lambda>r. r\<lparr>Imports := f_div (Imports r) (Fin k),
                                 Exports := f_div (Exports r) (Fin k)\<rparr>) (heap ! df)])"
  by (simp add: scale_ie_def df_copy_def df_setitem_def set_column_comp)




text \<open>
  C8. \<^verbatim>\<open>scale_ie\<close> returns a frame at a new address whose rows are those of the input
  with both columns divided by the factor; the input frame and every other frame that
  existed keep their contents.
\<close>

theorem scale_ie_fresh:
  assumes "df < length heap"
  shows "(let (df1, heap1) = scale_ie heap df k
          in df1 = length heap \<and> df1 \<noteq> df \<and> length heap1 = Suc (length heap) \<and>
             (\<forall>a < length heap. heap1 ! a = heap ! a) \<and> heap1 ! df = heap ! df \<and>
             heap1 ! df1 = set_column (\<lambda>r. r\<lparr>Imports := f_div (Imports r) (Fin k),
                                 Exports := f_div (Exports r) (Fin k)\<rparr>) (heap ! df))"
  using assms by (auto simp add: scale_ie_eq nth_append)

theorem scale_ie_fresh_witness:
  "0 < length example_heap \<and>
   (let (df1, heap1) = scale_ie example_heap 0 1000000
    in df1 = 1 \<and> heap1 ! 0 = example_heap ! 0 \<and>
       heap1 ! df1 =
         Frame [\<lparr>Imports = Fin (binary64 (2 / 10000)), Exports = Fin (binary64 (1 / 10000)),
                  ISO3 = ''CAN''\<rparr>,
                \<lparr>Imports = Fin (binary64 (5 / 10000)), Exports = Fin (binary64 (3 / 10000)),
                  ISO3 = ''USA''\<rparr>]) \<and>
   (let (df1, heap1) = scale_ie example_heap 0 0
    in df1 = 1 \<and> heap1 ! 0 = example_heap ! 0 \<and>
       heap1 ! df1 =
         Frame [\<lparr>Imports = PosInf, Exports = PosInf, ISO3 = ''CAN''\<rparr>,
                \<lparr>Imports = PosInf, Exports = PosInf, ISO3 = ''USA''\<rparr>])"
proof -
  have h: "0 < length example_heap" by (simp add: example_heap_def)
  have v: "example_heap ! 0 =
     Frame [\<lparr>Imports = Fin 200, Exports = Fin 100, ISO3 = ''CAN''\<rparr>,
            \<lparr>Imports = Fin 500, Exports = Fin 300, ISO3 = ''USA''\<rparr>]"
    by (simp add: example_heap_def)
  have l: "length example_heap = 1" by (simp add: example_heap_def)
  from scale_ie_fresh [OF h, of 1000000] scale_ie_fresh [OF h, of 0] h show ?thesis
    by (auto simp add: v l signed_inf_def split: prod.splits)
qed

section \<open>get_world_data and top_share\<close>

lemma read_sql_query_eq:
  "read_sql_query query as_row db =
     (if query db = [] then EmptyObject else Frame (map as_row (query db)))"
  by (simp add: read_sql_query_def split: list.splits)



lemma get_world_data_eq:
  "get_world_data self y =
     (if select_world y (con self) = [] then EmptyObject
      else Frame (map snapshot_of (select_world y (con self))))"
  by (auto simp add: get_world_data_def scale_ie_eq read_sql_query_eq set_column_comp
      as_world_row_def snapshot_of_def trade_of_def split: prod.splits)

lemma rows_of_get_world_data:
  "rows_of (get_world_data self y) = map snapshot_of (select_world y (con self))"
  by (simp add: get_world_data_eq)



lemma select_world_example:
  "select_world 2025 (con example_api) = [(''CAN'', 200, 100), (''USA'', 500, 300)]"
  by (simp add: select_world_def example_api_def group_keys_def)

lemma trade_example:
  "trade_of (''USA'', 500, 300) = binary64 (8 / 10000) - 1 / 2 ^ 63"
  "trade_of (''CAN'', 200, 100) = binary64 (3 / 10000) + 1 / 2 ^ 64"
  by (simp_all add: trade_of_def) code_simp+

lemma trade_example_neq:
  "trade_of (''USA'', 500, 300) \<noteq> binary64 (8 / 10000)"
  by (simp add: trade_example)


lemma rows_example:
  "rows_of (get_world_data example_api 2025) =
     [\<lparr>Imports = Fin (binary64 (2 / 10000)), Exports = Fin (binary64 (1 / 10000)),
       ISO3 = ''CAN'', Trade = Fin (binary64 (3 / 10000) + 1 / 2 ^ 64)\<rparr>,
      \<lparr>Imports = Fin (binary64 (5 / 10000)), Exports = Fin (binary64 (3 / 10000)),
       ISO3 = ''USA'', Trade = Fin (binary64 (8 / 10000) - 1 / 2 ^ 63)\<rparr>]"
  by (simp add: rows_of_get_world_data select_world_example snapshot_of_def trade_example)

lemma filter_NaN_Fin: "filter (\<lambda>x. x \<noteq> NaN) (map Fin qs) = map Fin qs"
  by (induction qs) simp_all

lemma fold_f_max_Fin: "fold f_max (map Fin qs) (Fin q) = Fin (fold max qs q)"
  by (induction qs arbitrary: q) (simp_all add: f_max_def max_def)

lemma foldl_f_add_Fin:
  "foldl f_add (Fin a) (map Fin qs) = Fin (foldl (\<lambda>s x. binary64 (s + x)) a qs)"
  by (induction qs arbitrary: a) simp_all

lemma fold_max_in: "fold max qs (q::rat) \<in> set (q # qs)"
proof (induction qs arbitrary: q)
  case Nil
  then show ?case by simp
next
  case (Cons x qs)
  have "fold max qs (max x q) \<in> set (max x q # qs)" by (rule Cons.IH)
  moreover have "max x q = x \<or> max x q = q" by (cases "x \<le> q") simp_all
  ultimately show ?case by auto
qed

text \<open>
  A floating-point sum of numbers that are not negative is at least its starting value
  and at least each of its terms, when these are binary64 numbers.
\<close>

lemma float_sum_ge:
  assumes "0 \<le> a" and "binary64 a = a"
    and "\<forall>x \<in> set qs. 0 \<le> x \<and> binary64 x = x"
  shows "a \<le> foldl (\<lambda>s x. binary64 (s + x)) a qs \<and>
         (\<forall>x \<in> set qs. x \<le> foldl (\<lambda>s x. binary64 (s + x)) a qs)"
  using assms
proof (induction qs arbitrary: a)
  case Nil
  then show ?case by simp
next
  case (Cons x qs)
  let ?a = "binary64 (a + x)"
  from Cons.prems have x: "0 \<le> x" "binary64 x = x" by simp_all
  have s: "0 \<le> a + x" using Cons.prems(1) x(1) by simp
  have a0: "0 \<le> ?a" using s by (rule binary64_nonneg)
  have ai: "binary64 ?a = ?a" using s by (rule binary64_idem)
  have "binary64 a \<le> ?a" using Cons.prems(1) x(1) by (intro binary64_mono) simp_all
  then have aa: "a \<le> ?a" using Cons.prems(2) by simp
  have "binary64 x \<le> ?a" using Cons.prems(1) x(1) by (intro binary64_mono) simp_all
  then have xa: "x \<le> ?a" using x(2) by simp
  from Cons.prems(3) have "\<forall>x \<in> set qs. 0 \<le> x \<and> binary64 x = x" by simp
  from Cons.IH [OF a0 ai this]
  have ih: "?a \<le> foldl (\<lambda>s x. binary64 (s + x)) ?a qs"
    "\<forall>x \<in> set qs. x \<le> foldl (\<lambda>s x. binary64 (s + x)) ?a qs" by simp_all
  show ?case using aa xa ih by auto
qed

lemma np_round1_bounds:
  assumes "0 \<le> x" and "x \<le> 100"
  shows "0 \<le> binary64 (of_int (round_half_even (binary64 (x * 10))) / 10) \<and>
         binary64 (of_int (round_half_even (binary64 (x * 10))) / 10) \<le> 100"
proof -
  let ?p = "binary64 (x * 10)"
  let ?n = "round_half_even ?p"
  have "0 \<le> x * 10" "x * 10 \<le> 1000" using assms by simp_all
  then have "0 \<le> ?p" "?p \<le> binary64 1000"
    by (simp add: binary64_nonneg, intro binary64_mono)
  then have p: "of_int 0 \<le> ?p" "?p \<le> of_int 1000" by simp_all
  have "0 \<le> ?n" by (rule round_half_even_lower) (rule p(1))
  moreover have "?n \<le> 1000" by (rule round_half_even_upper) (rule p(2))
  ultimately have "(of_int 0 :: rat) \<le> of_int ?n" "(of_int ?n :: rat) \<le> of_int 1000"
    by (simp_all only: of_int_le_iff)
  then have n: "(0::rat) \<le> of_int ?n / 10" "(of_int ?n :: rat) / 10 \<le> 100" by simp_all
  have "0 \<le> binary64 (of_int ?n / 10)" using n(1) by (rule binary64_nonneg)
  moreover have "binary64 (of_int ?n / 10) \<le> binary64 100" using n by (rule binary64_mono)
  ultimately show ?thesis by simp
qed

lemma top_share_Fin:
  assumes "map Trade rows = map Fin (q # qs)"
    and "foldl (\<lambda>s x. binary64 (s + x)) (binary64 q) qs \<noteq> 0"
  shows "top_share (Frame rows) =
     Inr (NpFloat (Fin (binary64 (of_int (round_half_even (binary64 (binary64 (binary64
       (fold max qs q / foldl (\<lambda>s x. binary64 (s + x)) (binary64 q) qs) * 100) * 10)))
         / 10))))"
  using assms
  by (simp add: top_share_def series_max_def series_sum_def
      fold_f_max_Fin [simplified] filter_NaN_Fin [simplified]
      foldl_f_add_Fin scalar_truediv_def scalar_mul_def bind_err_def)

lemma Trade_snapshot_of: "Trade (snapshot_of t) = Fin (trade_of t)"
  by (simp add: snapshot_of_def split: prod.splits)

lemma trade_of_nonneg:
  assumes "\<forall>r \<in> set tbl. 0 \<le> import r \<and> 0 \<le> export r"
    and "t \<in> set (select_world y tbl)"
  shows "0 \<le> trade_of t \<and> binary64 (trade_of t) = trade_of t"
proof -
  have "0 \<le> sum_list (map import (filter P tbl))" "0 \<le> sum_list (map export (filter P tbl))"
    for P
    using assms(1) by (auto intro!: sum_list_nonneg)
  then have "0 \<le> binary64 (sum_list (map import (filter P tbl)) / 1000000)
                 + binary64 (sum_list (map export (filter P tbl)) / 1000000)" for P
    by (intro add_nonneg_nonneg binary64_nonneg) simp_all
  then show ?thesis using assms(2)
    by (auto simp add: select_world_def Let_def trade_of_def binary64_nonneg binary64_idem)
qed

text \<open>
  C9. With imports and exports that are not negative, \<^verbatim>\<open>top_share\<close> of a snapshot that
  has a row and whose trade values are not all zero returns a finite value between 0
  and 100.
\<close>

theorem top_share_bounds:
  assumes nonneg: "\<forall>r \<in> set (con self). 0 \<le> import r \<and> 0 \<le> export r"
    and nonempty: "rows_of (get_world_data self y) \<noteq> []"
    and notzero: "\<exists>row \<in> set (rows_of (get_world_data self y)). Trade row \<noteq> Fin 0"
  shows "\<exists>p. top_share (get_world_data self y) = Inr (NpFloat (Fin p)) \<and> 0 \<le> p \<and> p \<le> 100"
proof -
  let ?ts = "select_world y (con self)"
  let ?vs = "map trade_of ?ts"
  from nonempty have ne: "?ts \<noteq> []" by (simp add: rows_of_get_world_data)
  then obtain v vs where vs: "?vs = v # vs" by (cases ?ts) auto
  have frame: "get_world_data self y = Frame (map snapshot_of ?ts)"
    using ne by (simp add: get_world_data_eq)
  have col: "map Trade (map snapshot_of ?ts) = map Fin (v # vs)"
    unfolding vs [symmetric] by (simp add: Trade_snapshot_of)
  have pos: "\<forall>x \<in> set (v # vs). 0 \<le> x \<and> binary64 x = x"
    unfolding vs [symmetric] using trade_of_nonneg [OF nonneg] by auto
  let ?S = "foldl (\<lambda>s x. binary64 (s + x)) (binary64 v) vs"
  let ?M = "fold max vs v"
  have S: "?S = foldl (\<lambda>s x. binary64 (s + x)) 0 (v # vs)" by simp
  have ge: "\<forall>x \<in> set (v # vs). x \<le> ?S"
    unfolding S using float_sum_ge [of 0 "v # vs"] pos by simp
  from notzero obtain t where "t \<in> set ?ts" "trade_of t \<noteq> 0"
    by (auto simp add: rows_of_get_world_data Trade_snapshot_of)
  then obtain x where x: "x \<in> set (v # vs)" "x \<noteq> 0" unfolding vs [symmetric] by auto
  with pos have "0 < x" by (auto simp: less_le)
  with ge x(1) have s: "0 < ?S" by (auto simp: less_le_trans)
  have Min: "?M \<in> set (v # vs)" by (rule fold_max_in)
  with pos have m0: "0 \<le> ?M" by blast
  from Min ge have ms: "?M \<le> ?S" by blast
  let ?q = "binary64 (?M / ?S)"
  have "0 \<le> ?M / ?S" "?M / ?S \<le> 1" using m0 ms s by simp_all
  then have "0 \<le> ?q" "?q \<le> binary64 1"
    by (simp add: binary64_nonneg, intro binary64_mono)
  then have q: "0 \<le> ?q * 100" "?q * 100 \<le> 100" by simp_all
  let ?pct = "binary64 (?q * 100)"
  have "0 \<le> ?pct" using q(1) by (rule binary64_nonneg)
  moreover have "?pct \<le> binary64 100" using q by (rule binary64_mono)
  then have "?pct \<le> 100" by simp
  ultimately have "0 \<le> binary64 (of_int (round_half_even (binary64 (?pct * 10))) / 10) \<and>
      binary64 (of_int (round_half_even (binary64 (?pct * 10))) / 10) \<le> 100"
    by (rule np_round1_bounds)
  moreover have "top_share (get_world_data self y) =
      Inr (NpFloat (Fin (binary64 (of_int (round_half_even (binary64 (?pct * 10))) / 10))))"
    unfolding frame using col s by (intro top_share_Fin) simp_all
  ultimately show ?thesis by blast
qed

theorem top_share_bounds_witness:
  "list_all (\<lambda>r. 0 \<le> import r \<and> 0 \<le> export r) (con example_api) \<and>
   rows_of (get_world_data example_api 2025) \<noteq> [] \<and>
   (\<exists>row \<in> set (rows_of (get_world_data example_api 2025)). Trade row \<noteq> Fin 0) \<and>
   (\<exists>p. top_share (get_world_data example_api 2025) = Inr (NpFloat (Fin p)) \<and>
        0 \<le> p \<and> p \<le> 100)"
proof -
  have h1: "\<forall>r \<in> set (con example_api). 0 \<le> import r \<and> 0 \<le> export r"
    by (simp add: example_api_def)
  have h2: "rows_of (get_world_data example_api 2025) \<noteq> []"
    by (simp add: rows_example)
  have "binary64 (3 / 10000) + 1 / 2 ^ 64 \<noteq> 0" by code_simp
  then have h3: "\<exists>row \<in> set (rows_of (get_world_data example_api 2025)). Trade row \<noteq> Fin 0"
    by (simp add: rows_example)
  from top_share_bounds [OF h1 h2 h3] h1 h2 h3 show ?thesis
    unfolding list_all_iff by blast
qed




lemma fold_f_max_zero: "\<forall>x \<in> set xs. x = Fin 0 \<Longrightarrow> fold f_max xs (Fin 0) = Fin 0"
  by (induction xs) (simp_all add: f_max_def)

lemma foldl_f_add_zero: "\<forall>x \<in> set xs. x = Fin 0 \<Longrightarrow> foldl f_add (Fin 0) xs = Fin 0"
  by (induction xs) simp_all

lemma filter_NaN_zero: "\<forall>x \<in> set xs. x = Fin 0 \<Longrightarrow> filter (\<lambda>x. x \<noteq> NaN) xs = xs"
  by (induction xs) simp_all

text \<open>
  C2, as stated, fails: on a table whose only trade value is zero, \<^verbatim>\<open>top_share\<close> raises
  nothing and returns the float \<^verbatim>\<open>nan\<close>.
\<close>

theorem top_share_all_zero_counterexample:
  "top_share (Frame [\<lparr>Imports = Fin 0, Exports = Fin 0, ISO3 = ''CAN'', Trade = Fin 0\<rparr>])
     = Inr (NpFloat NaN)"
  by (simp add: top_share_def series_max_def series_sum_def scalar_truediv_def scalar_mul_def
      bind_err_def signed_inf_def)

text \<open>
  C2, amended. On a table with typed columns that has no row or whose trade values are
  all zero, \<^verbatim>\<open>top_share\<close> raises nothing and returns \<^verbatim>\<open>nan\<close>; on the untyped empty table
  it raises \<^verbatim>\<open>ZeroDivisionError\<close>.
\<close>

theorem top_share_undefined:
  assumes "rows = [] \<or> (\<forall>r \<in> set rows. Trade r = Fin 0)"
  shows "top_share (Frame rows) = Inr (NpFloat NaN) \<and>
         top_share (EmptyObject :: snapshot_row DataFrame) = Inl ZeroDivisionError"
proof -
  have e: "top_share (EmptyObject :: snapshot_row DataFrame) = Inl ZeroDivisionError"
    by (simp add: top_share_def series_max_def series_sum_def scalar_truediv_def bind_err_def)
  have z: "\<forall>x \<in> set (map Trade rows). x = Fin 0" using assms by auto
  have "top_share (Frame rows) = Inr (NpFloat NaN)"
  proof (cases "map Trade rows")
    case Nil
    then show ?thesis
      by (simp add: top_share_def series_max_def series_sum_def scalar_truediv_def
          scalar_mul_def bind_err_def)
  next
    case (Cons t ts)
    with z have t: "t = Fin 0" and ts: "\<forall>x \<in> set ts. x = Fin 0" by auto
    show ?thesis
      using Cons t ts filter_NaN_zero [OF z] fold_f_max_zero [OF ts] foldl_f_add_zero [OF z]
      by (simp add: top_share_def series_max_def series_sum_def scalar_truediv_def
          scalar_mul_def bind_err_def signed_inf_def)
  qed
  with e show ?thesis by simp
qed

theorem top_share_undefined_witness:
  "top_share (Frame ([] :: snapshot_row list)) = Inr (NpFloat NaN) \<and>
   top_share (Frame [\<lparr>Imports = Fin 0, Exports = Fin 0, ISO3 = ''CAN'', Trade = Fin 0\<rparr>,
                     \<lparr>Imports = Fin 0, Exports = Fin 0, ISO3 = ''USA'', Trade = Fin 0\<rparr>])
     = Inr (NpFloat NaN) \<and>
   top_share (get_world_data example_api 1999) = Inl ZeroDivisionError"
proof -
  have a: "top_share (Frame ([] :: snapshot_row list)) = Inr (NpFloat NaN)"
    using top_share_undefined [of "[] :: snapshot_row list"] by simp
  have b: "top_share (Frame [\<lparr>Imports = Fin 0, Exports = Fin 0, ISO3 = ''CAN'', Trade = Fin 0\<rparr>,
                     \<lparr>Imports = Fin 0, Exports = Fin 0, ISO3 = ''USA'', Trade = Fin 0\<rparr>])
     = Inr (NpFloat NaN)"
    using top_share_undefined
      [of "[\<lparr>Imports = Fin 0, Exports = Fin 0, ISO3 = ''CAN'', Trade = Fin 0\<rparr>,
            \<lparr>Imports = Fin 0, Exports = Fin 0, ISO3 = ''USA'', Trade = Fin 0\<rparr>]"]
    by simp
  have "get_world_data example_api 1999 = EmptyObject"
    by (simp add: get_world_data_eq select_world_def example_api_def group_keys_def)
  then have c: "top_share (get_world_data example_api 1999) = Inl ZeroDivisionError"
    using top_share_undefined [of "[] :: snapshot_row list"] by simp
  from a b c show ?thesis by simp
qed

section \<open>get_country_data\<close>












end
